theory Spec2Isabelle
  imports Complex_Main
begin

section \<open>The shared store (context/AppContext.tsx)\<close>

text \<open>
  Values of TypeScript type \<^verbatim>\<open>any\<close>: what \<^verbatim>\<open>r.json()\<close> can deliver, plus
  \<^verbatim>\<open>undefined\<close>. An object is the list of its own properties (keys distinct, as
  in a parsed JSON document). Numbers are the finite doubles, read as reals.
\<close>

datatype jsval =
    JUndefined
  | JNull
  | JBool bool
  | JNum real
  | JStr string
  | JArr "jsval list"
  | JObj "(string \<times> jsval) list"

text \<open>A browser \<^verbatim>\<open>File\<close>, known by its name.\<close>

datatype File = File string

text \<open>The type \<^verbatim>\<open>number | ""\<close> of the two numeric intake fields.\<close>

datatype num_or_empty = Num real | Empty

record PatientData =
  age :: num_or_empty
  moca :: num_or_empty
  sex :: string
  files :: "File list"

text \<open>
  \<^verbatim>\<open>interface AnalysisResult\<close>. The fields typed \<^verbatim>\<open>any\<close> hold a \<^typ>\<open>jsval\<close>; an
  optional field that is absent reads as \<^term>\<open>JUndefined\<close>, as a property read does.
  The field \<^verbatim>\<open>note\<close> is spelled \<open>note'\<close> here.
\<close>

record AnalysisResult =
  jobId :: "string option"
  status :: jsval
  result :: jsval
  triage :: jsval
  note' :: jsval
  citations :: jsval
  trials :: jsval
  treatment_recommendations :: jsval

text \<open>
  \<^verbatim>\<open>Partial<T>\<close>: an object literal that names some of the keys of \<open>T\<close>. A field
  is \<^term>\<open>None\<close> when the literal does not name the key and \<open>Some v\<close> when it
  names it with value \<open>v\<close>.
\<close>

record PartialPatientData =
  age_p :: "num_or_empty option"
  moca_p :: "num_or_empty option"
  sex_p :: "string option"
  files_p :: "File list option"

record PartialAnalysisResult =
  jobId_p :: "string option option"
  status_p :: "jsval option"
  result_p :: "jsval option"
  triage_p :: "jsval option"
  note_p :: "jsval option"
  citations_p :: "jsval option"
  trials_p :: "jsval option"
  treatment_recommendations_p :: "jsval option"

text \<open>The empty object literal \<^verbatim>\<open>{}\<close> at the two partial types.\<close>

definition no_patient_fields :: PartialPatientData where
  "no_patient_fields = \<lparr>age_p = None, moca_p = None, sex_p = None, files_p = None\<rparr>"

definition no_analysis_fields :: PartialAnalysisResult where
  "no_analysis_fields =
     \<lparr>jobId_p = None, status_p = None, result_p = None, triage_p = None, note_p = None,
      citations_p = None, trials_p = None, treatment_recommendations_p = None\<rparr>"

definition initialPatientData :: PatientData where
  "initialPatientData = \<lparr>age = Empty, moca = Empty, sex = ''F'', files = []\<rparr>"

definition initialAnalysisResult :: AnalysisResult where
  "initialAnalysisResult =
     \<lparr>jobId = None, status = JNull, result = JNull, triage = JNull, note' = JNull,
      citations = JArr [], trials = JArr [], treatment_recommendations = JNull\<rparr>"

text \<open>
  The spread \<^verbatim>\<open>{ ...prev, ...data }\<close> copies \<open>prev\<close> and then assigns every own
  property of \<open>data\<close> onto the copy. \<open>spread_key upd v\<close> is that assignment for one
  key, \<open>upd\<close> being the record's update function for the key.
\<close>

definition spread_key :: "(('v \<Rightarrow> 'v) \<Rightarrow> 'r \<Rightarrow> 'r) \<Rightarrow> 'v option \<Rightarrow> 'r \<Rightarrow> 'r" where
  "spread_key upd v r = (case v of None \<Rightarrow> r | Some x \<Rightarrow> upd (\<lambda>_. x) r)"

text \<open>\<^verbatim>\<open>setPatientDataState(prev => ({ ...prev, ...data }))\<close>\<close>

definition setPatientData :: "PatientData \<Rightarrow> PartialPatientData \<Rightarrow> PatientData" where
  "setPatientData prev data =
     (spread_key files_update (files_p data)
       (spread_key sex_update (sex_p data)
         (spread_key moca_update (moca_p data)
           (spread_key age_update (age_p data) prev))))"

text \<open>\<^verbatim>\<open>setAnalysisResultState(prev => ({ ...prev, ...result }))\<close>\<close>

definition setAnalysisResult :: "AnalysisResult \<Rightarrow> PartialAnalysisResult \<Rightarrow> AnalysisResult" where
  "setAnalysisResult prev res =
     (spread_key treatment_recommendations_update (treatment_recommendations_p res)
       (spread_key trials_update (trials_p res)
         (spread_key citations_update (citations_p res)
           (spread_key note'_update (note_p res)
             (spread_key triage_update (triage_p res)
               (spread_key result_update (result_p res)
                 (spread_key status_update (status_p res)
                   (spread_key jobId_update (jobId_p res) prev))))))))"

section \<open>The submission guard (pages/Dashboard.tsx)\<close>

text \<open>
  \<^verbatim>\<open>
  const canSubmit = useMemo(() => {
    const hasFiles = files.length > 0
    const mocaValid = typeof moca === "number" ? moca >= 0 && moca <= 30 : true
    const ageValid = typeof age === "number" ? age > 0 : true
    return hasFiles && mocaValid && ageValid
  }, [files, moca, age])
  \<close>
\<close>

definition canSubmit :: "File list \<Rightarrow> num_or_empty \<Rightarrow> num_or_empty \<Rightarrow> bool" where
  "canSubmit fs m a =
     (let hasFiles = (length fs > 0);
          mocaValid = (case m of Num x \<Rightarrow> x \<ge> 0 \<and> x \<le> 30 | Empty \<Rightarrow> True);
          ageValid = (case a of Num x \<Rightarrow> x > 0 | Empty \<Rightarrow> True)
      in hasFiles \<and> mocaValid \<and> ageValid)"

text \<open>
  Property reads on a value of type \<^verbatim>\<open>any\<close>. \<open>js_get v k\<close> is \<^verbatim>\<open>v.k\<close>, which
  throws a TypeError on \<^verbatim>\<open>null\<close> and \<^verbatim>\<open>undefined\<close>; \<open>opt_chain v k\<close> is
  \<^verbatim>\<open>v?.k\<close>. The keys read by the Dashboard (\<^verbatim>\<open>status\<close>, \<^verbatim>\<open>result\<close>,
  \<^verbatim>\<open>triage\<close>, \<^verbatim>\<open>note\<close>, \<^verbatim>\<open>citations\<close>, \<^verbatim>\<open>trials\<close>,
  \<^verbatim>\<open>treatment_recommendations\<close>) are no built-in property of a boolean, number,
  string or array, so reading them there gives \<^verbatim>\<open>undefined\<close>.
\<close>

datatype js_error = TypeError

fun js_get :: "jsval \<Rightarrow> string \<Rightarrow> js_error + jsval" where
  "js_get JUndefined k = Inl TypeError"
| "js_get JNull k = Inl TypeError"
| "js_get (JObj kvs) k = Inr (case map_of kvs k of None \<Rightarrow> JUndefined | Some x \<Rightarrow> x)"
| "js_get v k = Inr JUndefined"

fun opt_chain :: "jsval \<Rightarrow> string \<Rightarrow> jsval" where
  "opt_chain JUndefined k = JUndefined"
| "opt_chain JNull k = JUndefined"
| "opt_chain (JObj kvs) k = (case map_of kvs k of None \<Rightarrow> JUndefined | Some x \<Rightarrow> x)"
| "opt_chain v k = JUndefined"

section \<open>The Dashboard component and its environment\<close>

text \<open>
  A \<^verbatim>\<open>FormData\<close> body is the list of its entries in the order of the
  \<^verbatim>\<open>append\<close> calls. \<open>JsonEntry v\<close> stands for the string \<^verbatim>\<open>JSON.stringify(v)\<close>.
\<close>

datatype form_value = FileEntry File | JsonEntry jsval

datatype request =
    PostSubmit "(string \<times> form_value) list"
  | PostDemoSubmit
  | PostDemoPathology
  | GetStatus string
  | GetResult string

text \<open>
  How a request settles. For the three POST requests the handler tests \<^verbatim>\<open>resp.ok\<close>
  and then reads \<^verbatim>\<open>data.job_id\<close> of the parsed body: \<open>NetworkError\<close> is a rejected
  \<^verbatim>\<open>fetch\<close>, \<open>NotOk c\<close> a response with a non-success status \<open>c\<close>, \<open>BadBody\<close>
  a success whose body \<^verbatim>\<open>json()\<close> rejects, and \<open>Created j\<close> a success with body
  \<^verbatim>\<open>{ job_id: j }\<close>. The two GET requests are \<^verbatim>\<open>fetch(url).then(r => r.json())\<close>
  with no test of \<^verbatim>\<open>r.ok\<close>: \<open>Rejected\<close> when \<^verbatim>\<open>fetch\<close> or \<^verbatim>\<open>json()\<close> rejects,
  \<open>Json v\<close> when the body parses to \<open>v\<close>.
\<close>

datatype submit_outcome = NetworkError | NotOk nat | BadBody | Created string

datatype json_outcome = Rejected | Json jsval

datatype level = Log | Error

text \<open>
  The state the Dashboard's code reads and writes: the two stores of the context, the ref
  \<^verbatim>\<open>pollRef\<close>, the window's active intervals (each with the \<^verbatim>\<open>jobId\<close> its
  \<^verbatim>\<open>poll\<close> closure captured) and the next handle \<^verbatim>\<open>setInterval\<close> returns, the
  dependency \<^verbatim>\<open>[jobId]\<close> of the last run of the effect and whether that run returned
  its cleanup function, every request issued so far (a request's number is its position),
  the numbers of the requests still in flight, and the console (the first argument of
  each call).
\<close>

record Dashboard =
  patientData :: PatientData
  analysisResult :: AnalysisResult
  pollRef :: "nat option"
  intervals :: "(nat \<times> string) list"
  nextHandle :: nat
  deps :: "string option"
  hasCleanup :: bool
  requests :: "request list"
  pending :: "nat list"
  console :: "(level \<times> string) list"

definition fetch :: "request \<Rightarrow> Dashboard \<Rightarrow> Dashboard" where
  "fetch r d = d\<lparr>requests := requests d @ [r], pending := pending d @ [length (requests d)]\<rparr>"

definition settle :: "nat \<Rightarrow> Dashboard \<Rightarrow> Dashboard" where
  "settle n d = d\<lparr>pending := removeAll n (pending d)\<rparr>"

definition console_log :: "string \<Rightarrow> Dashboard \<Rightarrow> Dashboard" where
  "console_log msg d = d\<lparr>console := console d @ [(Log, msg)]\<rparr>"

definition console_error :: "string \<Rightarrow> Dashboard \<Rightarrow> Dashboard" where
  "console_error msg d = d\<lparr>console := console d @ [(Error, msg)]\<rparr>"

text \<open>\<^verbatim>\<open>window.setInterval(poll, 2000)\<close> for the closure \<^verbatim>\<open>poll\<close> over \<open>j\<close>.\<close>

definition setInterval :: "string \<Rightarrow> Dashboard \<Rightarrow> nat \<times> Dashboard" where
  "setInterval j d =
     (nextHandle d,
      d\<lparr>intervals := intervals d @ [(nextHandle d, j)], nextHandle := Suc (nextHandle d)\<rparr>)"

definition clearInterval :: "nat \<Rightarrow> Dashboard \<Rightarrow> Dashboard" where
  "clearInterval h d = d\<lparr>intervals := filter (\<lambda>(h', j). h' \<noteq> h) (intervals d)\<rparr>"

text \<open>
  \<^verbatim>\<open>
  if (pollRef.current) {
    clearInterval(pollRef.current)
    pollRef.current = null
  }
  \<close>
  The same four lines end the completed branch of \<^verbatim>\<open>poll\<close> and are the body of the
  effect's cleanup function. A handle is truthy when it is not \<open>0\<close>.
\<close>

definition stopPolling :: "Dashboard \<Rightarrow> Dashboard" where
  "stopPolling d =
     (case pollRef d of
        None \<Rightarrow> d
      | Some h \<Rightarrow> if h = 0 then d else (clearInterval h d)\<lparr>pollRef := None\<rparr>)"

definition writeAnalysis :: "PartialAnalysisResult \<Rightarrow> Dashboard \<Rightarrow> Dashboard" where
  "writeAnalysis p d = d\<lparr>analysisResult := setAnalysisResult (analysisResult d) p\<rparr>"

definition writePatient :: "PartialPatientData \<Rightarrow> Dashboard \<Rightarrow> Dashboard" where
  "writePatient p d = d\<lparr>patientData := setPatientData (patientData d) p\<rparr>"

text \<open>The literal \<^verbatim>\<open>{ jobId: null, status: null, result: null }\<close>.\<close>

definition clearedJob :: PartialAnalysisResult where
  "clearedJob = no_analysis_fields\<lparr>jobId_p := Some None, status_p := Some JNull, result_p := Some JNull\<rparr>"

subsection \<open>\<^verbatim>\<open>startSubmit\<close> and the two demo submissions\<close>

text \<open>
  \<^verbatim>\<open>
  const startSubmit = async () => {
    if (!canSubmit) return
    setAnalysisResult({ jobId: null, status: null, result: null })
    try {
      const mocaVal = typeof moca === "number" ? moca : 24
      const ageVal = typeof age === "number" ? age : 70
      const fd = new FormData()
      files.forEach(f => fd.append('files', f))
      fd.append('moca', JSON.stringify({ total: Number(mocaVal) }))
      fd.append('meta', JSON.stringify({ age: Number(ageVal), sex }))
      const resp = await fetch(`${API}/api/submit`, { method: 'POST', body: fd })
      if (!resp.ok) { ...; throw new Error(...) }
      const data = await resp.json()
      setAnalysisResult({ jobId: data.job_id })
    } catch (error) { console.error('Submit failed:', error) }
  }
  \<close>
  An async function is one definition for each stretch between two \<^verbatim>\<open>await\<close>s.
  \<open>startSubmit\<close> runs to the \<^verbatim>\<open>await fetch\<close>; \<open>startSubmit_settled\<close> is the rest,
  run when the request settles, with the \<^verbatim>\<open>catch\<close> block as the branch of every
  outcome that throws. A setter's update \<^verbatim>\<open>prev => ({ ...prev, ...x })\<close> is applied to
  the store where the setter is called: React applies the updates in the order of the
  calls, each to the state the one before left.
\<close>

definition startSubmit :: "Dashboard \<Rightarrow> Dashboard" where
  "startSubmit d =
     (let p = patientData d in
      if \<not> canSubmit (files p) (moca p) (age p) then d
      else
        let d1 = writeAnalysis clearedJob d;
            mocaVal = (case moca p of Num x \<Rightarrow> x | Empty \<Rightarrow> 24);
            ageVal = (case age p of Num x \<Rightarrow> x | Empty \<Rightarrow> 70);
            fd = map (\<lambda>f. (''files'', FileEntry f)) (files p)
                 @ [(''moca'', JsonEntry (JObj [(''total'', JNum mocaVal)]))]
                 @ [(''meta'', JsonEntry (JObj [(''age'', JNum ageVal), (''sex'', JStr (sex p))]))]
        in fetch (PostSubmit fd) d1)"

definition startSubmit_settled :: "submit_outcome \<Rightarrow> Dashboard \<Rightarrow> Dashboard" where
  "startSubmit_settled out d =
     (case out of
        Created job_id \<Rightarrow> writeAnalysis (no_analysis_fields\<lparr>jobId_p := Some (Some job_id)\<rparr>) d
      | _ \<Rightarrow> console_error ''Submit failed:'' d)"

definition useDemoCase :: "Dashboard \<Rightarrow> Dashboard" where
  "useDemoCase d =
     fetch PostDemoSubmit
       (writeAnalysis clearedJob
         (writePatient \<lparr>age_p = Some (Num 72), moca_p = Some (Num 24), sex_p = Some ''M'',
                        files_p = Some []\<rparr> d))"

definition useDemoCase_settled :: "submit_outcome \<Rightarrow> Dashboard \<Rightarrow> Dashboard" where
  "useDemoCase_settled out d =
     (case out of
        Created job_id \<Rightarrow> writeAnalysis (no_analysis_fields\<lparr>jobId_p := Some (Some job_id)\<rparr>) d
      | _ \<Rightarrow> console_error ''Demo submission failed:'' d)"

definition useDemoPathology :: "Dashboard \<Rightarrow> Dashboard" where
  "useDemoPathology d =
     fetch PostDemoPathology
       (writeAnalysis clearedJob
         (writePatient \<lparr>age_p = Some (Num 78), moca_p = Some (Num 19), sex_p = Some ''F'',
                        files_p = Some []\<rparr> d))"

definition useDemoPathology_settled :: "submit_outcome \<Rightarrow> Dashboard \<Rightarrow> Dashboard" where
  "useDemoPathology_settled out d =
     (case out of
        Created job_id \<Rightarrow> writeAnalysis (no_analysis_fields\<lparr>jobId_p := Some (Some job_id)\<rparr>) d
      | _ \<Rightarrow> console_error ''Demo pathology submission failed:'' d)"

subsection \<open>The polling effect\<close>

text \<open>
  \<^verbatim>\<open>
  const poll = async () => {
    try {
      const statusResp = await fetch(`${API}/api/status/${jobId}`).then(r => r.json())
      setAnalysisResult({ status: statusResp })
      if (statusResp.status === 'completed') {
        const resultResp = await fetch(`${API}/api/result/${jobId}`).then(r => r.json())
        console.log('Dashboard - Full result response:', resultResp)
        console.log('Dashboard - Result data:', resultResp.result)
        setAnalysisResult({ result: resultResp.result, triage: resultResp.result?.triage,
          note: resultResp.result?.note, citations: resultResp.result?.citations,
          trials: resultResp.result?.trials,
          treatment_recommendations: resultResp.result?.treatment_recommendations })
        if (pollRef.current) { clearInterval(pollRef.current); pollRef.current = null }
      }
    } catch (error) { console.error('Polling failed:', error) }
  }
  \<close>
  \<open>poll j\<close> is the closure over \<^verbatim>\<open>jobId\<close> = \<open>j\<close> up to its first \<^verbatim>\<open>await\<close>,
  \<open>poll_status j\<close> the stretch from the status response to the second \<^verbatim>\<open>await\<close>,
  \<open>poll_result\<close> the rest. The last stretch does not read \<^verbatim>\<open>jobId\<close>, and no
  stretch reads the \<^verbatim>\<open>jobId\<close> of the store.
\<close>

definition poll :: "string \<Rightarrow> Dashboard \<Rightarrow> Dashboard" where
  "poll j d = fetch (GetStatus j) d"

definition poll_status :: "string \<Rightarrow> json_outcome \<Rightarrow> Dashboard \<Rightarrow> Dashboard" where
  "poll_status j out d =
     (case out of
        Rejected \<Rightarrow> console_error ''Polling failed:'' d
      | Json statusResp \<Rightarrow>
          let d1 = writeAnalysis (no_analysis_fields\<lparr>status_p := Some statusResp\<rparr>) d in
          (case js_get statusResp ''status'' of
             Inl err \<Rightarrow> console_error ''Polling failed:'' d1
           | Inr st \<Rightarrow> if st = JStr ''completed'' then fetch (GetResult j) d1 else d1))"

text \<open>
  The object literal of the completed branch, for \<^verbatim>\<open>resultResp.result\<close> = \<open>r\<close>: it
  names \<^verbatim>\<open>result\<close> and the five derived keys, and neither \<^verbatim>\<open>jobId\<close> nor
  \<^verbatim>\<open>status\<close>.
\<close>

definition aggregate :: "jsval \<Rightarrow> PartialAnalysisResult" where
  "aggregate r =
     \<lparr>jobId_p = None, status_p = None,
      result_p = Some r,
      triage_p = Some (opt_chain r ''triage''),
      note_p = Some (opt_chain r ''note''),
      citations_p = Some (opt_chain r ''citations''),
      trials_p = Some (opt_chain r ''trials''),
      treatment_recommendations_p = Some (opt_chain r ''treatment_recommendations'')\<rparr>"

definition poll_result :: "json_outcome \<Rightarrow> Dashboard \<Rightarrow> Dashboard" where
  "poll_result out d =
     (case out of
        Rejected \<Rightarrow> console_error ''Polling failed:'' d
      | Json resultResp \<Rightarrow>
          let d1 = console_log ''Dashboard - Full result response:'' d in
          (case js_get resultResp ''result'' of
             Inl err \<Rightarrow> console_error ''Polling failed:'' d1
           | Inr r \<Rightarrow>
               let d2 = console_log ''Dashboard - Result data:'' d1;
                   d3 = writeAnalysis (aggregate r) d2
               in stopPolling d3))"

text \<open>
  \<^verbatim>\<open>
  useEffect(() => {
    if (!jobId) return
    const poll = ...
    poll()
    pollRef.current = window.setInterval(poll, 2000)
    return () => { if (pollRef.current) { clearInterval(pollRef.current); pollRef.current = null } }
  }, [jobId])
  \<close>
  \<open>effect\<close> is the body, run with the \<^verbatim>\<open>jobId\<close> of the store; \<^verbatim>\<open>!jobId\<close> holds
  for \<^verbatim>\<open>null\<close> and for the empty string. \<open>useEffect\<close> is what React does with it
  after a render: nothing when \<^verbatim>\<open>jobId\<close> is the one of the last run, otherwise the
  cleanup function of the last run (if it returned one) and then the body.
\<close>

definition effect :: "Dashboard \<Rightarrow> Dashboard" where
  "effect d =
     (case jobId (analysisResult d) of
        None \<Rightarrow> d\<lparr>hasCleanup := False\<rparr>
      | Some j \<Rightarrow>
          if j = [] then d\<lparr>hasCleanup := False\<rparr>
          else
            let d1 = poll j d;
                (h, d2) = setInterval j d1
            in d2\<lparr>pollRef := Some h, hasCleanup := True\<rparr>)"

definition useEffect :: "Dashboard \<Rightarrow> Dashboard" where
  "useEffect d =
     (if jobId (analysisResult d) = deps d then d
      else effect ((if hasCleanup d then stopPolling d else d)\<lparr>deps := jobId (analysisResult d)\<rparr>))"

subsection \<open>Events\<close>

text \<open>
  What can happen to a Dashboard that stays mounted, one event per run of its code: a call of
  \<^verbatim>\<open>setPatientData\<close> by an input, drop, file selection or removal; a click on one of
  the three submit buttons; \<^verbatim>\<open>clearAll\<close> of the context; an interval firing (any
  active interval may fire at any moment: the period of 2 seconds is not modelled); a
  request in flight settling in some way. After each, React renders and runs the effect.
  An event that cannot happen (an interval that is not active, a request that is not in
  flight, an outcome of the wrong kind) gives \<^term>\<open>None\<close>.
\<close>

datatype event =
    SetPatientData PartialPatientData
  | StartSubmit
  | UseDemoCase
  | UseDemoPathology
  | ClearAll
  | Tick nat
  | SubmitSettled nat submit_outcome
  | FetchSettled nat json_outcome

definition in_flight :: "nat \<Rightarrow> Dashboard \<Rightarrow> bool" where
  "in_flight n d = (n \<in> set (pending d) \<and> n < length (requests d))"

definition handler :: "event \<Rightarrow> Dashboard \<Rightarrow> Dashboard option" where
  "handler e d =
     (case e of
        SetPatientData p \<Rightarrow> Some (writePatient p d)
      | StartSubmit \<Rightarrow> Some (startSubmit d)
      | UseDemoCase \<Rightarrow> Some (useDemoCase d)
      | UseDemoPathology \<Rightarrow> Some (useDemoPathology d)
      | ClearAll \<Rightarrow>
          Some (d\<lparr>patientData := initialPatientData, analysisResult := initialAnalysisResult\<rparr>)
      | Tick h \<Rightarrow>
          (case map_of (intervals d) h of None \<Rightarrow> None | Some j \<Rightarrow> Some (poll j d))
      | SubmitSettled n out \<Rightarrow>
          if \<not> in_flight n d then None
          else (case requests d ! n of
                  PostSubmit fd \<Rightarrow> Some (startSubmit_settled out (settle n d))
                | PostDemoSubmit \<Rightarrow> Some (useDemoCase_settled out (settle n d))
                | PostDemoPathology \<Rightarrow> Some (useDemoPathology_settled out (settle n d))
                | GetStatus j \<Rightarrow> None
                | GetResult j \<Rightarrow> None)
      | FetchSettled n out \<Rightarrow>
          if \<not> in_flight n d then None
          else (case requests d ! n of
                  GetStatus j \<Rightarrow> Some (poll_status j out (settle n d))
                | GetResult j \<Rightarrow> Some (poll_result out (settle n d))
                | PostSubmit fd \<Rightarrow> None
                | PostDemoSubmit \<Rightarrow> None
                | PostDemoPathology \<Rightarrow> None))"

definition step :: "event \<Rightarrow> Dashboard \<Rightarrow> Dashboard option" where
  "step e d = map_option useEffect (handler e d)"

fun run :: "Dashboard \<Rightarrow> event list \<Rightarrow> Dashboard option" where
  "run d [] = Some d"
| "run d (e # es) = (case step e d of None \<Rightarrow> None | Some d' \<Rightarrow> run d' es)"

text \<open>
  The Dashboard as first mounted under a fresh \<^verbatim>\<open>AppProvider\<close>: the effect has run
  once with \<^verbatim>\<open>jobId\<close> null and returned nothing; \<^verbatim>\<open>setInterval\<close> hands out
  positive handles.
\<close>

definition mounted :: Dashboard where
  "mounted =
     \<lparr>patientData = initialPatientData, analysisResult = initialAnalysisResult,
      pollRef = None, intervals = [], nextHandle = 1, deps = None, hasCleanup = False,
      requests = [], pending = [], console = []\<rparr>"

section \<open>Notions the properties are stated with\<close>

text \<open>
  The five derived fields of a store are the same-named members of its \<^verbatim>\<open>result\<close>,
  read as the aggregation reads them (\<^verbatim>\<open>result?.triage\<close> and so on).
\<close>

definition derived_from_result :: "AnalysisResult \<Rightarrow> bool" where
  "derived_from_result s =
     (triage s = opt_chain (result s) ''triage''
      \<and> note' s = opt_chain (result s) ''note''
      \<and> citations s = opt_chain (result s) ''citations''
      \<and> trials s = opt_chain (result s) ''trials''
      \<and> treatment_recommendations s = opt_chain (result s) ''treatment_recommendations'')"

text \<open>
  The job identifiers of the result requests issued so far, oldest first: one entry for
  each invocation of the aggregation.
\<close>

definition aggregations :: "Dashboard \<Rightarrow> string list" where
  "aggregations d =
     List.map_filter (\<lambda>r. case r of GetResult j \<Rightarrow> Some j | _ \<Rightarrow> None) (requests d)"

text \<open>
  \<open>observes_completed e d\<close> is \<open>Some j\<close> when event \<open>e\<close>, in state \<open>d\<close>, is a
  status response for job \<open>j\<close> whose \<^verbatim>\<open>status\<close> member is the string
  \<^verbatim>\<open>completed\<close>. \<open>observed d es\<close> lists these observations along the run of \<open>es\<close>
  from \<open>d\<close>.
\<close>

definition observes_completed :: "event \<Rightarrow> Dashboard \<Rightarrow> string option" where
  "observes_completed e d =
     (case e of
        FetchSettled n out \<Rightarrow>
          (case out of
             Rejected \<Rightarrow> None
           | Json v \<Rightarrow>
               if in_flight n d then
                 (case requests d ! n of
                    GetStatus j \<Rightarrow>
                      if js_get v ''status'' = Inr (JStr ''completed'') then Some j else None
                  | _ \<Rightarrow> None)
               else None)
      | _ \<Rightarrow> None)"

fun observed :: "Dashboard \<Rightarrow> event list \<Rightarrow> string list" where
  "observed d [] = []"
| "observed d (e # es) =
     (case step e d of
        None \<Rightarrow> []
      | Some d' \<Rightarrow>
          (case observes_completed e d of None \<Rightarrow> [] | Some j \<Rightarrow> [j]) @ observed d' es)"

text \<open>
  Every active interval is the one \<^verbatim>\<open>pollRef\<close> holds, was started by the last run
  of the effect, and polls the job of that run.
\<close>

definition timers_ok :: "Dashboard \<Rightarrow> bool" where
  "timers_ok d =
     (0 < nextHandle d
      \<and> list_all (\<lambda>(h, j). pollRef d = Some h \<and> h \<noteq> 0 \<and> hasCleanup d \<and> deps d = Some j)
           (intervals d))"

text \<open>
  The five derived fields of a store are the same-named members of the value \<open>r\<close>; and
  the five derived fields are as \<^verbatim>\<open>initialAnalysisResult\<close> has them.
\<close>

definition derived_from :: "jsval \<Rightarrow> AnalysisResult \<Rightarrow> bool" where
  "derived_from r s =
     (triage s = opt_chain r ''triage''
      \<and> note' s = opt_chain r ''note''
      \<and> citations s = opt_chain r ''citations''
      \<and> trials s = opt_chain r ''trials''
      \<and> treatment_recommendations s = opt_chain r ''treatment_recommendations'')"

definition derived_unset :: "AnalysisResult \<Rightarrow> bool" where
  "derived_unset s =
     (triage s = JNull \<and> note' s = JNull \<and> citations s = JArr [] \<and> trials s = JArr []
      \<and> treatment_recommendations s = JNull)"

text \<open>
  \<open>delivers e d\<close> is \<open>Some r\<close> when event \<open>e\<close>, in state \<open>d\<close>, is a result response
  whose body has the member \<^verbatim>\<open>result\<close> = \<open>r\<close>: the responses the aggregation merges.
  \<open>snapshot a d es\<close> follows the run of \<open>es\<close> from \<open>d\<close> and gives the result most
  recently delivered and not since wiped by \<^verbatim>\<open>clearAll\<close>, starting from \<open>a\<close>;
  \<^term>\<open>None\<close> when there is none.
\<close>

definition delivers :: "event \<Rightarrow> Dashboard \<Rightarrow> jsval option" where
  "delivers e d =
     (case e of
        FetchSettled n out \<Rightarrow>
          (case out of
             Rejected \<Rightarrow> None
           | Json v \<Rightarrow>
               if in_flight n d then
                 (case requests d ! n of
                    GetResult j \<Rightarrow>
                      (case js_get v ''result'' of Inl err \<Rightarrow> None | Inr r \<Rightarrow> Some r)
                  | _ \<Rightarrow> None)
               else None)
      | _ \<Rightarrow> None)"

definition next_snapshot :: "jsval option \<Rightarrow> event \<Rightarrow> Dashboard \<Rightarrow> jsval option" where
  "next_snapshot a e d =
     (case e of
        ClearAll \<Rightarrow> None
      | _ \<Rightarrow> (case delivers e d of None \<Rightarrow> a | Some r \<Rightarrow> Some r))"

fun snapshot :: "jsval option \<Rightarrow> Dashboard \<Rightarrow> event list \<Rightarrow> jsval option" where
  "snapshot a d [] = a"
| "snapshot a d (e # es) =
     (case step e d of None \<Rightarrow> a | Some d' \<Rightarrow> snapshot (next_snapshot a e d) d' es)"

text \<open>
  A store agrees with a snapshot: with none, the derived fields are unset and
  \<^verbatim>\<open>result\<close> is null; with \<open>r\<close>, the derived fields are all members of \<open>r\<close> and
  \<^verbatim>\<open>result\<close> is \<open>r\<close> or null.
\<close>

definition one_snapshot :: "jsval option \<Rightarrow> AnalysisResult \<Rightarrow> bool" where
  "one_snapshot a s =
     (case a of
        None \<Rightarrow> derived_unset s \<and> result s = JNull
      | Some r \<Rightarrow> derived_from r s \<and> (result s = r \<or> result s = JNull))"

text \<open>
  Events that belong to no submission (an input, a tick, a status or result response),
  and among them the responses.
\<close>

definition bystander :: "event \<Rightarrow> bool" where
  "bystander e =
     (case e of
        SetPatientData p \<Rightarrow> True
      | Tick h \<Rightarrow> True
      | FetchSettled n out \<Rightarrow> True
      | _ \<Rightarrow> False)"

definition is_response :: "event \<Rightarrow> bool" where
  "is_response e = (case e of FetchSettled n out \<Rightarrow> True | _ \<Rightarrow> False)"

section \<open>Example data\<close>

text \<open>A file selection (\<^verbatim>\<open>onSelectFiles\<close>: \<^verbatim>\<open>setPatientData({ files: [f] })\<close>).\<close>

definition pick_file :: event where
  "pick_file = SetPatientData (no_patient_fields\<lparr>files_p := Some [File ''scan.nii'']\<rparr>)"

text \<open>The request \<^verbatim>\<open>startSubmit\<close> issues for that file and the initial intake fields.\<close>

definition scan_request :: request where
  "scan_request =
     PostSubmit
       [(''files'', FileEntry (File ''scan.nii'')),
        (''moca'', JsonEntry (JObj [(''total'', JNum 24)])),
        (''meta'', JsonEntry (JObj [(''age'', JNum 70), (''sex'', JStr ''F'')]))]"

text \<open>Bodies of \<^verbatim>\<open>GET /api/status/{job_id}\<close>.\<close>

definition status_running :: jsval where
  "status_running = JObj [(''status'', JStr ''running''), (''progress'', JNum 40)]"

definition status_completed :: jsval where
  "status_completed = JObj [(''status'', JStr ''completed''), (''progress'', JNum 100)]"

definition status_failed :: jsval where
  "status_failed = JObj [(''status'', JStr ''failed''), (''progress'', JNum 40)]"

text \<open>A result document and the body of \<^verbatim>\<open>GET /api/result/{job_id}\<close> that carries it.\<close>

definition triage_A :: jsval where
  "triage_A = JObj [(''risk_tier'', JStr ''HIGH'')]"

definition note_A :: jsval where
  "note_A = JObj [(''imaging_findings'', JObj [(''hippocampal_volume'', JNum 3)])]"

definition citations_A :: jsval where
  "citations_A = JArr [JStr ''PMID 1'']"

definition trials_A :: jsval where
  "trials_A = JArr [JStr ''NCT 1'']"

definition treatment_A :: jsval where
  "treatment_A = JObj [(''follow_up'', JStr ''6 months'')]"

definition document_A :: jsval where
  "document_A =
     JObj [(''triage'', triage_A), (''note'', note_A), (''citations'', citations_A),
           (''trials'', trials_A), (''treatment_recommendations'', treatment_A)]"

definition result_body_A :: jsval where
  "result_body_A = JObj [(''result'', document_A)]"

text \<open>An age is typed into the form.\<close>

definition age_input :: event where
  "age_input = SetPatientData (no_patient_fields\<lparr>age_p := Some (Num 72)\<rparr>)"

text \<open>A file is selected, the job is submitted and the service names it \<open>A\<close>.\<close>

definition submit_A :: "event list" where
  "submit_A = [pick_file, StartSubmit, SubmitSettled 0 (Created ''A'')]"

text \<open>
  Then the first poll of \<open>A\<close> (request 1) answers \<^verbatim>\<open>completed\<close> and the result
  request it starts (request 2) delivers the document.
\<close>

definition job_A_done :: "event list" where
  "job_A_done =
     submit_A @ [FetchSettled 1 (Json status_completed), FetchSettled 2 (Json result_body_A)]"

text \<open>
  Or, with the first poll of \<open>A\<close> still in flight, the job is submitted again
  (request 2) and the service names the new job \<open>B\<close>.
\<close>

definition superseded :: "event list" where
  "superseded = submit_A @ [StartSubmit, SubmitSettled 2 (Created ''B'')]"

section \<open>Properties of the store\<close>

lemmas store_defs = setAnalysisResult_def setPatientData_def spread_key_def

lemmas env_defs = fetch_def settle_def console_log_def console_error_def setInterval_def
  clearInterval_def stopPolling_def writeAnalysis_def writePatient_def

lemmas code_defs = startSubmit_def startSubmit_settled_def useDemoCase_def useDemoCase_settled_def
  useDemoPathology_def useDemoPathology_settled_def poll_def poll_status_def poll_result_def
  aggregate_def effect_def useEffect_def

lemmas example_defs = pick_file_def scan_request_def status_running_def status_completed_def
  status_failed_def triage_A_def note_A_def citations_A_def trials_A_def treatment_A_def
  document_A_def result_body_A_def submit_A_def job_A_done_def superseded_def age_input_def

lemmas run_defs = step_def handler_def in_flight_def code_defs env_defs store_defs
  clearedJob_def no_analysis_fields_def no_patient_fields_def canSubmit_def mounted_def
  initialPatientData_def initialAnalysisResult_def Let_def

lemma setAnalysisResult_sel:
  "jobId (setAnalysisResult s p) = (case jobId_p p of None \<Rightarrow> jobId s | Some v \<Rightarrow> v)"
  "status (setAnalysisResult s p) = (case status_p p of None \<Rightarrow> status s | Some v \<Rightarrow> v)"
  "result (setAnalysisResult s p) = (case result_p p of None \<Rightarrow> result s | Some v \<Rightarrow> v)"
  "triage (setAnalysisResult s p) = (case triage_p p of None \<Rightarrow> triage s | Some v \<Rightarrow> v)"
  "note' (setAnalysisResult s p) = (case note_p p of None \<Rightarrow> note' s | Some v \<Rightarrow> v)"
  "citations (setAnalysisResult s p) = (case citations_p p of None \<Rightarrow> citations s | Some v \<Rightarrow> v)"
  "trials (setAnalysisResult s p) = (case trials_p p of None \<Rightarrow> trials s | Some v \<Rightarrow> v)"
  "treatment_recommendations (setAnalysisResult s p) =
     (case treatment_recommendations_p p of None \<Rightarrow> treatment_recommendations s | Some v \<Rightarrow> v)"
  by (simp_all add: store_defs split: option.split)

lemma setPatientData_sel:
  "age (setPatientData t q) = (case age_p q of None \<Rightarrow> age t | Some v \<Rightarrow> v)"
  "moca (setPatientData t q) = (case moca_p q of None \<Rightarrow> moca t | Some v \<Rightarrow> v)"
  "sex (setPatientData t q) = (case sex_p q of None \<Rightarrow> sex t | Some v \<Rightarrow> v)"
  "files (setPatientData t q) = (case files_p q of None \<Rightarrow> files t | Some v \<Rightarrow> v)"
  by (simp_all add: store_defs split: option.split)

text \<open>
  C7. For every store \<open>s\<close> and every partial \<open>p\<close>, each field of the merged store is the
  value \<open>p\<close> names for it, or the field of \<open>s\<close> when \<open>p\<close> does not name it. In
  particular, merging \<^verbatim>\<open>{ triage: X }\<close> into a store holding \<^verbatim>\<open>note: N\<close> and
  \<^verbatim>\<open>trials: T\<close> gives that store with \<^verbatim>\<open>triage: X\<close> and nothing else changed.
\<close>

theorem setAnalysisResult_replaces_named_keys_only:
  "jobId (setAnalysisResult s p) = (case jobId_p p of None \<Rightarrow> jobId s | Some v \<Rightarrow> v)
   \<and> status (setAnalysisResult s p) = (case status_p p of None \<Rightarrow> status s | Some v \<Rightarrow> v)
   \<and> result (setAnalysisResult s p) = (case result_p p of None \<Rightarrow> result s | Some v \<Rightarrow> v)
   \<and> triage (setAnalysisResult s p) = (case triage_p p of None \<Rightarrow> triage s | Some v \<Rightarrow> v)
   \<and> note' (setAnalysisResult s p) = (case note_p p of None \<Rightarrow> note' s | Some v \<Rightarrow> v)
   \<and> citations (setAnalysisResult s p) = (case citations_p p of None \<Rightarrow> citations s | Some v \<Rightarrow> v)
   \<and> trials (setAnalysisResult s p) = (case trials_p p of None \<Rightarrow> trials s | Some v \<Rightarrow> v)
   \<and> treatment_recommendations (setAnalysisResult s p) =
         (case treatment_recommendations_p p of
            None \<Rightarrow> treatment_recommendations s | Some v \<Rightarrow> v)
   \<and> setAnalysisResult (s\<lparr>note' := N, trials := T\<rparr>) (no_analysis_fields\<lparr>triage_p := Some X\<rparr>)
       = s\<lparr>note' := N, trials := T, triage := X\<rparr>"
  by (simp add: setAnalysisResult_sel) (simp add: store_defs no_analysis_fields_def)

text \<open>
  C10. Merging the same partial twice is merging it once, and merging the empty partial
  changes nothing, for \<^verbatim>\<open>setAnalysisResult\<close> and for \<^verbatim>\<open>setPatientData\<close>.
\<close>

theorem merge_idempotent_with_empty_identity:
  "setAnalysisResult (setAnalysisResult s p) p = setAnalysisResult s p
   \<and> setAnalysisResult s no_analysis_fields = s
   \<and> setPatientData (setPatientData t q) q = setPatientData t q
   \<and> setPatientData t no_patient_fields = t"
proof (intro conjI)
  show "setAnalysisResult (setAnalysisResult s p) p = setAnalysisResult s p"
    by (rule AnalysisResult.equality) (simp_all add: setAnalysisResult_sel split: option.split)
  show "setAnalysisResult s no_analysis_fields = s"
    by (simp add: store_defs no_analysis_fields_def)
  show "setPatientData (setPatientData t q) q = setPatientData t q"
    by (rule PatientData.equality) (simp_all add: setPatientData_sel split: option.split)
  show "setPatientData t no_patient_fields = t"
    by (simp add: store_defs no_patient_fields_def)
qed

section \<open>Properties of the submission\<close>

text \<open>
  C5. \<^verbatim>\<open>canSubmit\<close> holds exactly when there is a file, the MoCA score is empty or
  lies in [0, 30], and the age is empty or positive. One file with a score of 35 is
  refused; one file with score 24 and age 72 is accepted. When the guard fails,
  \<^verbatim>\<open>startSubmit\<close> returns the state it was given: nothing is written, requested or
  logged, and no error is raised.
\<close>

theorem canSubmit_guard:
  "(canSubmit fs m a \<longleftrightarrow>
      fs \<noteq> [] \<and> (m = Empty \<or> (\<exists>x. m = Num x \<and> 0 \<le> x \<and> x \<le> 30))
               \<and> (a = Empty \<or> (\<exists>x. a = Num x \<and> 0 < x)))
   \<and> \<not> canSubmit [f] (Num 35) a'
   \<and> canSubmit [f] (Num 24) (Num 72)
   \<and> (\<not> canSubmit (files (patientData d)) (moca (patientData d)) (age (patientData d))
        \<longrightarrow> startSubmit d = d \<and> handler StartSubmit d = Some d)"
  by (auto simp: canSubmit_def startSubmit_def handler_def Let_def split: num_or_empty.splits)

theorem canSubmit_guard_witness:
  "\<not> canSubmit (files (patientData mounted)) (moca (patientData mounted)) (age (patientData mounted))
   \<and> startSubmit mounted = mounted \<and> handler StartSubmit mounted = Some mounted"
proof -
  have "\<not> canSubmit (files (patientData mounted)) (moca (patientData mounted))
            (age (patientData mounted))"
    by (simp add: canSubmit_def mounted_def initialPatientData_def)
  with canSubmit_guard [of "[]" Empty Empty undefined undefined mounted] show ?thesis
    by blast
qed

lemma useEffect_frame:
  "analysisResult (useEffect d) = analysisResult d"
  "patientData (useEffect d) = patientData d"
  "console (useEffect d) = console d"
  by (simp_all add: useEffect_def effect_def env_defs poll_def Let_def split: option.split)

text \<open>
  C9. When the guard holds, \<^verbatim>\<open>startSubmit\<close> issues exactly one request, the
  create-job request, whose form data is one \<^verbatim>\<open>files\<close> entry for each selected file,
  then \<^verbatim>\<open>moca\<close> = \<^verbatim>\<open>{ total }\<close> with the score, or 24 when the score is empty,
  then \<^verbatim>\<open>meta\<close> = \<^verbatim>\<open>{ age, sex }\<close> with the age, or 70 when the age is empty.
\<close>

theorem startSubmit_payload:
  assumes "canSubmit (files (patientData d)) (moca (patientData d)) (age (patientData d))"
  shows "requests (startSubmit d) =
           requests d @
           [PostSubmit
              (map (\<lambda>f. (''files'', FileEntry f)) (files (patientData d))
               @ [(''moca'', JsonEntry (JObj [(''total'',
                      JNum (case moca (patientData d) of Num x \<Rightarrow> x | Empty \<Rightarrow> 24))])),
                  (''meta'', JsonEntry (JObj [(''age'',
                      JNum (case age (patientData d) of Num x \<Rightarrow> x | Empty \<Rightarrow> 70)),
                      (''sex'', JStr (sex (patientData d)))]))])]"
  using assms by (simp add: startSubmit_def Let_def fetch_def writeAnalysis_def)

theorem startSubmit_payload_witness:
  "canSubmit [File ''scan.nii''] Empty Empty
   \<and> requests (startSubmit (writePatient (no_patient_fields\<lparr>files_p := Some [File ''scan.nii'']\<rparr>) mounted))
     = [scan_request]"
proof -
  let ?d = "writePatient (no_patient_fields\<lparr>files_p := Some [File ''scan.nii'']\<rparr>) mounted"
  have p: "patientData ?d = \<lparr>age = Empty, moca = Empty, sex = ''F'', files = [File ''scan.nii'']\<rparr>"
    by (simp add: writePatient_def store_defs no_patient_fields_def mounted_def initialPatientData_def)
  have g: "canSubmit (files (patientData ?d)) (moca (patientData ?d)) (age (patientData ?d))"
    by (simp add: p canSubmit_def)
  have "requests ?d = []" by (simp add: writePatient_def mounted_def)
  with startSubmit_payload [OF g] have "requests (startSubmit ?d) = [scan_request]"
    by (simp add: p scan_request_def)
  then show ?thesis by (simp add: canSubmit_def)
qed


lemma useEffect_idle:
  assumes "jobId (analysisResult d) = None"
  shows "requests (useEffect d) = requests d" and "pending (useEffect d) = pending d"
  using assms
  by (simp_all add: useEffect_def effect_def stopPolling_def clearInterval_def split: option.split)

lemma startSubmit_accepted:
  assumes "canSubmit (files (patientData d)) (moca (patientData d)) (age (patientData d))"
  shows "analysisResult (startSubmit d) =
           (analysisResult d)\<lparr>jobId := None, status := JNull, result := JNull\<rparr>"
    and "\<exists>fd. requests (startSubmit d) = requests d @ [PostSubmit fd]"
    and "pending (startSubmit d) = pending d @ [length (requests d)]"
    and "console (startSubmit d) = console d"
  using assms
  by (simp_all add: startSubmit_def Let_def fetch_def writeAnalysis_def store_defs clearedJob_def
      no_analysis_fields_def)


lemma settle_frame:
  "analysisResult (settle n d) = analysisResult d"
  "requests (settle n d) = requests d"
  "console (settle n d) = console d"
  by (simp_all add: settle_def)





lemma failed_settled:
  "\<forall>j. out \<noteq> Created j \<Longrightarrow> startSubmit_settled out d = console_error ''Submit failed:'' d"
  by (cases out) (simp_all add: startSubmit_settled_def)

lemma console_error_frame:
  "analysisResult (console_error m d) = analysisResult d"
  "requests (console_error m d) = requests d"
  "console (console_error m d) = console d @ [(Error, m)]"
  by (simp_all add: console_error_def)

section \<open>Properties of the polling\<close>

lemma derived_aggregate: "derived_from_result (setAnalysisResult s (aggregate r))"
  by (simp add: derived_from_result_def setAnalysisResult_sel aggregate_def)

lemma writes_of_handler:
  assumes "handler e d = Some d'"
  shows "analysisResult d' = analysisResult d
       \<or> analysisResult d' = initialAnalysisResult
       \<or> analysisResult d' = setAnalysisResult (analysisResult d) clearedJob
       \<or> (\<exists>j. analysisResult d' =
                 setAnalysisResult (analysisResult d) (no_analysis_fields\<lparr>jobId_p := Some (Some j)\<rparr>))
       \<or> (\<exists>v. analysisResult d' =
                 setAnalysisResult (analysisResult d) (no_analysis_fields\<lparr>status_p := Some v\<rparr>))
       \<or> (\<exists>r. analysisResult d' = setAnalysisResult (analysisResult d) (aggregate r))"
proof (cases e)
  case (SetPatientData p)
  with assms show ?thesis by (auto simp: handler_def writePatient_def)
next
  case StartSubmit
  with assms show ?thesis
    by (auto simp: handler_def startSubmit_def Let_def fetch_def writeAnalysis_def)
next
  case UseDemoCase
  with assms show ?thesis
    by (auto simp: handler_def useDemoCase_def fetch_def writeAnalysis_def writePatient_def)
next
  case UseDemoPathology
  with assms show ?thesis
    by (auto simp: handler_def useDemoPathology_def fetch_def writeAnalysis_def writePatient_def)
next
  case ClearAll
  with assms show ?thesis by (auto simp: handler_def)
next
  case (Tick h)
  with assms show ?thesis
    by (auto simp: handler_def poll_def fetch_def split: option.splits)
next
  case (SubmitSettled n out)
  with assms show ?thesis
    by (cases out)
       (auto simp: handler_def startSubmit_settled_def useDemoCase_settled_def
          useDemoPathology_settled_def writeAnalysis_def console_error_def settle_def
          split: if_splits request.splits)
next
  case (FetchSettled n out)
  with assms show ?thesis
    by (cases out)
       (auto simp: handler_def poll_status_def poll_result_def writeAnalysis_def console_error_def
          console_log_def settle_def fetch_def stopPolling_def clearInterval_def Let_def
          split: if_splits request.splits sum.splits option.splits)
qed

lemma derived_step:
  assumes "step e d = Some d'"
    and "result (analysisResult d) = JNull \<or> derived_from_result (analysisResult d)"
  shows "result (analysisResult d') = JNull \<or> derived_from_result (analysisResult d')"
proof -
  from assms(1) obtain h where h: "handler e d = Some h" and d': "d' = useEffect h"
    by (auto simp: step_def)
  from writes_of_handler [OF h] assms(2)
  have "result (analysisResult h) = JNull \<or> derived_from_result (analysisResult h)"
    by (auto simp: derived_aggregate)
       (auto simp: derived_from_result_def setAnalysisResult_sel clearedJob_def no_analysis_fields_def
          initialAnalysisResult_def)
  then show ?thesis by (simp add: d' useEffect_frame)
qed

lemma derived_run:
  assumes "run d es = Some d'"
    and "result (analysisResult d) = JNull \<or> derived_from_result (analysisResult d)"
  shows "result (analysisResult d') = JNull \<or> derived_from_result (analysisResult d')"
  using assms
proof (induction es arbitrary: d)
  case Nil
  then show ?case by simp
next
  case (Cons e es)
  then obtain d1 where s: "step e d = Some d1" and r: "run d1 es = Some d'"
    by (auto split: option.splits)
  from Cons.IH [OF r derived_step [OF s Cons.prems(2)]] show ?case .
qed


lemma stopPolling_clears:
  assumes "timers_ok d"
  shows "intervals (stopPolling d) = []"
proof (cases "pollRef d")
  case None
  with assms have "intervals d = []"
    by (cases "intervals d") (auto simp: timers_ok_def)
  with None show ?thesis by (simp add: stopPolling_def)
next
  case (Some h)
  with assms have "\<forall>x \<in> set (intervals d). fst x = h \<and> h \<noteq> 0"
    by (auto simp: timers_ok_def list_all_iff)
  then show ?thesis
    by (cases "intervals d")
       (auto simp: stopPolling_def clearInterval_def Some filter_empty_conv)
qed

lemma stopPolling_frame:
  "nextHandle (stopPolling d) = nextHandle d"
  "deps (stopPolling d) = deps d"
  "hasCleanup (stopPolling d) = hasCleanup d"
  "analysisResult (stopPolling d) = analysisResult d"
  by (simp_all add: stopPolling_def clearInterval_def split: option.split)

lemma timers_ok_useEffect:
  assumes "timers_ok d"
  shows "timers_ok (useEffect d) \<and> deps (useEffect d) = jobId (analysisResult (useEffect d))"
proof (cases "jobId (analysisResult d) = deps d")
  case True
  with assms show ?thesis by (simp add: useEffect_def)
next
  case False
  let ?c = "(if hasCleanup d then stopPolling d else d)\<lparr>deps := jobId (analysisResult d)\<rparr>"
  have none: "intervals ?c = []"
  proof (cases "hasCleanup d")
    case True
    then show ?thesis by (simp add: stopPolling_clears [OF assms])
  next
    case False
    with assms show ?thesis by (cases "intervals d") (auto simp: timers_ok_def)
  qed
  have nh: "0 < nextHandle ?c"
    using assms by (simp add: timers_ok_def stopPolling_frame)
  have ar: "analysisResult ?c = analysisResult d" "deps ?c = jobId (analysisResult d)"
    by (simp_all add: stopPolling_frame)
  have "timers_ok (effect ?c) \<and> deps (effect ?c) = jobId (analysisResult (effect ?c))"
    using none nh ar
    by (cases "jobId (analysisResult d)")
       (simp_all add: effect_def timers_ok_def poll_def fetch_def setInterval_def Let_def)
  with False show ?thesis by (simp add: useEffect_def)
qed

lemma timers_of_handler:
  assumes "handler e d = Some d'"
  shows "nextHandle d' = nextHandle d \<and> deps d' = deps d \<and> hasCleanup d' = hasCleanup d
         \<and> (intervals d' = intervals d \<and> pollRef d' = pollRef d
            \<or> intervals d' = intervals (stopPolling d) \<and> pollRef d' = pollRef (stopPolling d))"
proof (cases e)
  case (SetPatientData p)
  with assms show ?thesis by (auto simp: handler_def writePatient_def)
next
  case StartSubmit
  with assms show ?thesis
    by (cases "canSubmit (files (patientData d)) (moca (patientData d)) (age (patientData d))")
       (auto simp: handler_def startSubmit_def Let_def fetch_def writeAnalysis_def)
next
  case UseDemoCase
  with assms show ?thesis
    by (auto simp: handler_def useDemoCase_def fetch_def writeAnalysis_def writePatient_def)
next
  case UseDemoPathology
  with assms show ?thesis
    by (auto simp: handler_def useDemoPathology_def fetch_def writeAnalysis_def writePatient_def)
next
  case ClearAll
  with assms show ?thesis by (auto simp: handler_def)
next
  case (Tick h)
  with assms show ?thesis
    by (auto simp: handler_def poll_def fetch_def split: option.splits)
next
  case (SubmitSettled n out)
  with assms show ?thesis
    by (cases out)
       (auto simp: handler_def startSubmit_settled_def useDemoCase_settled_def
          useDemoPathology_settled_def writeAnalysis_def console_error_def settle_def
          split: if_splits request.splits)
next
  case (FetchSettled n out)
  with assms show ?thesis
    by (cases out)
       (auto simp: handler_def poll_status_def poll_result_def writeAnalysis_def console_error_def
          console_log_def settle_def fetch_def stopPolling_def clearInterval_def Let_def
          split: if_splits request.splits sum.splits option.splits)
qed

lemma timers_ok_handler:
  assumes "handler e d = Some d'" and "timers_ok d"
  shows "timers_ok d'"
proof -
  from timers_of_handler [OF assms(1)]
  consider "nextHandle d' = nextHandle d" "deps d' = deps d" "hasCleanup d' = hasCleanup d"
      "intervals d' = intervals d" "pollRef d' = pollRef d"
    | "nextHandle d' = nextHandle d" "intervals d' = []"
    using stopPolling_clears [OF assms(2)] by auto
  then show ?thesis
  proof cases
    case 1
    with assms(2) show ?thesis by (simp add: timers_ok_def)
  next
    case 2
    with assms(2) show ?thesis by (simp add: timers_ok_def)
  qed
qed

lemma timers_ok_run:
  assumes "run d es = Some d'" and "timers_ok d" and "deps d = jobId (analysisResult d)"
  shows "timers_ok d' \<and> deps d' = jobId (analysisResult d')"
  using assms
proof (induction es arbitrary: d)
  case Nil
  then show ?case by simp
next
  case (Cons e es)
  then obtain d1 where s: "step e d = Some d1" and r: "run d1 es = Some d'"
    by (auto split: option.splits)
  from s obtain h where h: "handler e d = Some h" and d1: "d1 = useEffect h"
    by (auto simp: step_def)
  from timers_ok_useEffect [OF timers_ok_handler [OF h Cons.prems(2)]] d1
  have "timers_ok d1" "deps d1 = jobId (analysisResult d1)" by simp_all
  from Cons.IH [OF r this] show ?case .
qed

lemma timers_ok_mounted: "timers_ok mounted" "deps mounted = jobId (analysisResult mounted)"
  by (simp_all add: timers_ok_def mounted_def initialAnalysisResult_def)

lemma ticks_poll_current_job:
  assumes "run mounted es = Some d" and "map_of (intervals d) h = Some j"
  shows "jobId (analysisResult d) = Some j"
proof -
  from timers_ok_run [OF assms(1) timers_ok_mounted]
  have ok: "timers_ok d" and dj: "deps d = jobId (analysisResult d)" by simp_all
  from assms(2) have "(h, j) \<in> set (intervals d)" by (rule map_of_SomeD)
  with ok have "deps d = Some j" by (auto simp: timers_ok_def list_all_iff)
  with dj show ?thesis by simp
qed


lemma bystander_handler:
  assumes "handler e d = Some h" and "bystander e"
    and "in_flight n d" and "requests d ! n = PostSubmit fd"
  shows "in_flight n h \<and> requests h ! n = PostSubmit fd
         \<and> jobId (analysisResult h) = jobId (analysisResult d)
         \<and> (is_response e \<or> analysisResult h = analysisResult d)"
proof (cases e)
  case (SetPatientData p)
  with assms show ?thesis
    by (auto simp: handler_def writePatient_def in_flight_def)
next
  case (Tick t)
  with assms show ?thesis
    by (auto simp: handler_def poll_def fetch_def in_flight_def nth_append split: option.splits)
next
  case (FetchSettled m out)
  from FetchSettled assms(1) have fm: "in_flight m d"
    by (auto simp: handler_def split: if_splits)
  from FetchSettled assms(1,4) fm have ne: "m \<noteq> n"
    by (auto simp: handler_def split: request.splits)
  from assms(3) ne have fl: "in_flight n (settle m d)" "requests (settle m d) = requests d"
    by (auto simp: in_flight_def settle_def)
  show ?thesis
  proof (cases out)
    case Rejected
    with FetchSettled assms fl show ?thesis
      by (auto simp: handler_def poll_status_def poll_result_def console_error_def settle_def
            in_flight_def is_response_def split: if_splits request.splits)
  next
    case (Json v)
    with FetchSettled assms fl show ?thesis
      by (auto simp: handler_def poll_status_def poll_result_def console_error_def console_log_def
            settle_def fetch_def writeAnalysis_def stopPolling_def clearInterval_def
            setAnalysisResult_sel aggregate_def no_analysis_fields_def
            in_flight_def is_response_def nth_append Let_def
            split: if_splits request.splits sum.splits option.splits)
  qed
qed (use assms in \<open>auto simp: bystander_def\<close>)

lemma bystander_step:
  assumes "step e d = Some d'" and "bystander e"
    and "in_flight n d" and "requests d ! n = PostSubmit fd"
    and "jobId (analysisResult d) = None"
  shows "in_flight n d' \<and> requests d' ! n = PostSubmit fd
         \<and> jobId (analysisResult d') = None
         \<and> (is_response e \<or> analysisResult d' = analysisResult d)"
proof -
  from assms(1) obtain h where h: "handler e d = Some h" and d': "d' = useEffect h"
    by (auto simp: step_def)
  note b = bystander_handler [OF h assms(2,3,4)]
  from b assms(5) have idle: "jobId (analysisResult h) = None" by simp
  from b useEffect_idle [OF idle] have "in_flight n d'" "requests d' ! n = PostSubmit fd"
    by (simp_all add: d' in_flight_def)
  with b idle show ?thesis by (auto simp: d' useEffect_frame)
qed

lemma bystander_run:
  assumes "run d es = Some d'" and "list_all bystander es"
    and "in_flight n d" and "requests d ! n = PostSubmit fd"
    and "jobId (analysisResult d) = None"
  shows "in_flight n d' \<and> requests d' ! n = PostSubmit fd
         \<and> jobId (analysisResult d') = None
         \<and> (list_ex is_response es \<or> analysisResult d' = analysisResult d)"
  using assms
proof (induction es arbitrary: d)
  case Nil
  then show ?case by simp
next
  case (Cons e es)
  then obtain d1 where s: "step e d = Some d1" and r: "run d1 es = Some d'"
    by (auto split: option.splits)
  from Cons.prems(2) have be: "bystander e" and bes: "list_all bystander es" by simp_all
  note b = bystander_step [OF s be Cons.prems(3,4,5)]
  from b have f1: "in_flight n d1" and q1: "requests d1 ! n = PostSubmit fd"
    and j1: "jobId (analysisResult d1) = None" by simp_all
  from Cons.IH [OF r bes f1 q1 j1] b show ?case by auto
qed

text \<open>
  C8 (as amended). When the guard holds and the create-job request fails (the fetch
  rejects, the response has a non-success status, or its body is not JSON), the failure is
  logged with \<^verbatim>\<open>console.error\<close>, writes nothing to the store and issues no request.
  If only inputs, ticks and poll responses happen while the request is pending, then
  \<^verbatim>\<open>jobId\<close> is null when the failure is handled; if there is no poll response among
  them, \<^verbatim>\<open>status\<close> and \<^verbatim>\<open>result\<close> are null too. The submission itself issues one
  request. In any state at all, a create-job request that fails writes nothing to the
  store; in every state a mounted Dashboard can reach, it issues no request and starts no
  interval.
\<close>

theorem failed_submit_writes_nothing:
  assumes "canSubmit (files (patientData d)) (moca (patientData d)) (age (patientData d))"
    and "\<forall>j. out \<noteq> Created j"
    and "run d (StartSubmit # es) = Some d2"
    and "list_all bystander es"
  shows "(\<exists>d3. step (SubmitSettled (length (requests d)) out) d2 = Some d3
            \<and> analysisResult d3 = analysisResult d2
            \<and> jobId (analysisResult d3) = None
            \<and> console d3 = console d2 @ [(Error, ''Submit failed:'')]
            \<and> requests d3 = requests d2
            \<and> (\<not> list_ex is_response es \<longrightarrow>
                 status (analysisResult d3) = JNull \<and> result (analysisResult d3) = JNull))
       \<and> (\<exists>d1. step StartSubmit d = Some d1 \<and> length (requests d1) = Suc (length (requests d)))
       \<and> (\<forall>x n fd. in_flight n x \<and> requests x ! n = PostSubmit fd \<longrightarrow>
            (\<exists>x'. step (SubmitSettled n out) x = Some x'
               \<and> analysisResult x' = analysisResult x
               \<and> console x' = console x @ [(Error, ''Submit failed:'')]))
       \<and> (\<forall>es' x n fd. run mounted es' = Some x \<and> in_flight n x
                         \<and> requests x ! n = PostSubmit fd \<longrightarrow>
            (\<exists>x'. step (SubmitSettled n out) x = Some x'
               \<and> analysisResult x' = analysisResult x
               \<and> requests x' = requests x
               \<and> intervals x' = intervals x))"
proof -
  let ?n = "length (requests d)"
  let ?d1 = "useEffect (startSubmit d)"
  let ?h3 = "console_error ''Submit failed:'' (settle ?n d2)"
  note acc = startSubmit_accepted [OF assms(1)]
  have s1: "step StartSubmit d = Some ?d1"
    by (simp add: step_def handler_def)
  with assms(3) have r1: "run ?d1 es = Some d2" by simp
  have a1: "analysisResult ?d1 = (analysisResult d)\<lparr>jobId := None, status := JNull, result := JNull\<rparr>"
    by (simp add: useEffect_frame acc(1))
  have idle: "jobId (analysisResult (startSubmit d)) = None"
    by (simp add: acc(1))
  obtain fd where rq: "requests ?d1 = requests d @ [PostSubmit fd]"
    using acc(2) useEffect_idle(1) [OF idle] by auto
  have pd: "pending ?d1 = pending d @ [?n]"
    using acc(3) useEffect_idle(2) [OF idle] by simp
  have fl: "in_flight ?n ?d1"
    by (simp add: in_flight_def rq pd)
  have nth: "requests ?d1 ! ?n = PostSubmit fd"
    by (simp add: rq)
  have j1: "jobId (analysisResult ?d1) = None"
    by (simp add: a1)
  note b = bystander_run [OF r1 assms(4) fl nth j1]
  from b have fl2: "in_flight ?n d2" and nth2: "requests d2 ! ?n = PostSubmit fd"
    and j2: "jobId (analysisResult d2) = None" by simp_all
  have s3: "step (SubmitSettled ?n out) d2 = Some (useEffect ?h3)"
    by (simp add: step_def handler_def fl2 nth2 failed_settled [OF assms(2)])
  have a3: "analysisResult (useEffect ?h3) = analysisResult d2"
    by (simp add: useEffect_frame console_error_frame settle_frame)
  have idle3: "jobId (analysisResult ?h3) = None"
    by (simp add: console_error_frame settle_frame j2)
  have r3: "requests (useEffect ?h3) = requests d2"
    using useEffect_idle(1) [OF idle3] by (simp add: console_error_frame settle_frame)
  have c3: "console (useEffect ?h3) = console d2 @ [(Error, ''Submit failed:'')]"
    by (simp add: useEffect_frame console_error_frame settle_frame)
  have q3: "status (analysisResult (useEffect ?h3)) = JNull
            \<and> result (analysisResult (useEffect ?h3)) = JNull"
    if "\<not> list_ex is_response es"
  proof -
    from b that have "analysisResult d2 = analysisResult ?d1" by simp
    then show ?thesis by (simp add: a3 a1)
  qed
  from s3 a3 j2 r3 c3 q3
  have first: "\<exists>d3. step (SubmitSettled ?n out) d2 = Some d3
            \<and> analysisResult d3 = analysisResult d2
            \<and> jobId (analysisResult d3) = None
            \<and> console d3 = console d2 @ [(Error, ''Submit failed:'')]
            \<and> requests d3 = requests d2
            \<and> (\<not> list_ex is_response es \<longrightarrow>
                 status (analysisResult d3) = JNull \<and> result (analysisResult d3) = JNull)"
    by simp
  from s1 rq have second: "\<exists>d1. step StartSubmit d = Some d1
                             \<and> length (requests d1) = Suc (length (requests d))"
    by simp
  have third: "\<exists>x'. step (SubmitSettled n out) x = Some x'
               \<and> analysisResult x' = analysisResult x
               \<and> console x' = console x @ [(Error, ''Submit failed:'')]"
    if "in_flight n x \<and> requests x ! n = PostSubmit fd" for x n fd
    using that
    by (simp add: step_def handler_def failed_settled [OF assms(2)] useEffect_frame
        console_error_frame settle_frame)
  have fourth: "\<exists>x'. step (SubmitSettled n out) x = Some x'
               \<and> analysisResult x' = analysisResult x
               \<and> requests x' = requests x
               \<and> intervals x' = intervals x"
    if "run mounted es' = Some x \<and> in_flight n x \<and> requests x ! n = PostSubmit fd"
    for es' x n fd
  proof -
    let ?h = "console_error ''Submit failed:'' (settle n x)"
    from that have "run mounted es' = Some x" by simp
    from timers_ok_run [OF this timers_ok_mounted]
    have "deps x = jobId (analysisResult x)" by simp
    then have "jobId (analysisResult ?h) = deps ?h"
      by (simp add: console_error_def settle_def)
    then have "useEffect ?h = ?h"
      by (simp add: useEffect_def)
    moreover from that have "step (SubmitSettled n out) x = Some (useEffect ?h)"
      by (simp add: step_def handler_def failed_settled [OF assms(2)])
    ultimately show ?thesis
      by (simp add: console_error_def settle_def)
  qed
  from first second third fourth show ?thesis by blast
qed

theorem failed_submit_writes_nothing_witness:
  "canSubmit (files (patientData (the (run mounted [pick_file]))))
     (moca (patientData (the (run mounted [pick_file]))))
     (age (patientData (the (run mounted [pick_file]))))
   \<and> list_all bystander [age_input] \<and> \<not> list_ex is_response [age_input]
   \<and> run mounted [pick_file, StartSubmit, age_input]
       = Some (the (run mounted [pick_file, StartSubmit, age_input]))
   \<and> (\<exists>d3. step (SubmitSettled 0 NetworkError)
               (the (run mounted [pick_file, StartSubmit, age_input])) = Some d3
          \<and> jobId (analysisResult d3) = None
          \<and> status (analysisResult d3) = JNull
          \<and> result (analysisResult d3) = JNull
          \<and> console d3 = [(Error, ''Submit failed:'')]
          \<and> requests d3 = [scan_request])"
proof -
  let ?d = "the (run mounted [pick_file])"
  let ?d2 = "the (run mounted [pick_file, StartSubmit, age_input])"
  have g: "canSubmit (files (patientData ?d)) (moca (patientData ?d)) (age (patientData ?d))"
    by (simp add: example_defs run_defs)
  have o: "\<forall>j. NetworkError \<noteq> Created j"
    by simp
  have b: "list_all bystander [age_input]" and nr: "\<not> list_ex is_response [age_input]"
    by (simp_all add: bystander_def is_response_def age_input_def)
  have r0: "run mounted [pick_file, StartSubmit, age_input] = Some ?d2"
    by (simp add: example_defs run_defs age_input_def)
  have r: "run ?d (StartSubmit # [age_input]) = Some ?d2"
    by (simp add: example_defs run_defs age_input_def)
  have e: "length (requests ?d) = 0" "console ?d2 = []" "requests ?d2 = [scan_request]"
    by (simp_all add: example_defs run_defs age_input_def)
  from failed_submit_writes_nothing [OF g o r b] nr
  have "\<exists>d3. step (SubmitSettled (length (requests ?d)) NetworkError) ?d2 = Some d3
          \<and> jobId (analysisResult d3) = None
          \<and> status (analysisResult d3) = JNull
          \<and> result (analysisResult d3) = JNull
          \<and> console d3 = console ?d2 @ [(Error, ''Submit failed:'')]
          \<and> requests d3 = requests ?d2"
    by blast
  then have "\<exists>d3. step (SubmitSettled 0 NetworkError) ?d2 = Some d3
          \<and> jobId (analysisResult d3) = None
          \<and> status (analysisResult d3) = JNull
          \<and> result (analysisResult d3) = JNull
          \<and> console d3 = [(Error, ''Submit failed:'')]
          \<and> requests d3 = [scan_request]"
    unfolding e append_Nil by blast
  with g b nr r0 show ?thesis by blast
qed

text \<open>
  C8 as stated fails: job \<open>A\<close> is polling, its first status request in flight, when the
  job is submitted again; the status response for \<open>A\<close> arrives while the new create-job
  request is pending and is merged; the create-job request then fails with status 500.
  The failure is logged and \<^verbatim>\<open>jobId\<close> is null, but \<^verbatim>\<open>status\<close> is not.
\<close>

theorem failed_submit_with_status_counterexample:
  "map_option analysisResult
     (run mounted (submit_A @ [StartSubmit, FetchSettled 1 (Json status_running),
                               SubmitSettled 2 (NotOk 500)]))
     = Some (initialAnalysisResult\<lparr>status := status_running\<rparr>)
   \<and> map_option console
     (run mounted (submit_A @ [StartSubmit, FetchSettled 1 (Json status_running),
                               SubmitSettled 2 (NotOk 500)]))
     = Some [(Error, ''Submit failed:'')]
   \<and> status_running \<noteq> JNull"
  by (simp add: example_defs run_defs)

lemma poll_status_writes:
  "analysisResult (poll_status j (Json v) d) = (analysisResult d)\<lparr>status := v\<rparr>"
  by (simp add: poll_status_def writeAnalysis_def console_error_def fetch_def store_defs
      no_analysis_fields_def Let_def split: sum.split)

lemma poll_result_writes:
  "js_get v ''result'' = Inr r \<Longrightarrow>
   analysisResult (poll_result (Json v) d) = setAnalysisResult (analysisResult d) (aggregate r)"
  by (simp add: poll_result_def writeAnalysis_def console_log_def stopPolling_frame Let_def)

lemma aggregate_writes:
  "setAnalysisResult s (aggregate r) =
     s\<lparr>result := r, triage := opt_chain r ''triage'', note' := opt_chain r ''note'',
       citations := opt_chain r ''citations'', trials := opt_chain r ''trials'',
       treatment_recommendations := opt_chain r ''treatment_recommendations''\<rparr>"
  by (simp add: store_defs aggregate_def)

text \<open>
  C1 (as amended). In every state a mounted Dashboard can reach, each active interval polls
  the job the store names, so once \<open>B\<close> is the job of the store no tick starts a status
  request for \<open>A\<close>. A response to a request that is still in flight is not compared
  with the store's \<^verbatim>\<open>jobId\<close> and is never discarded: whatever job it was issued for,
  a status response replaces \<^verbatim>\<open>status\<close>, and a result response replaces
  \<^verbatim>\<open>result\<close> and the five derived fields. Neither changes any other field;
  \<^verbatim>\<open>jobId\<close> stays what it was.
\<close>

theorem late_response_is_merged:
  assumes "run mounted es = Some d"
  shows "(\<forall>h j. map_of (intervals d) h = Some j \<longrightarrow> jobId (analysisResult d) = Some j)
       \<and> (\<forall>n j v. in_flight n d \<and> requests d ! n = GetStatus j \<longrightarrow>
            (\<exists>d'. step (FetchSettled n (Json v)) d = Some d'
               \<and> analysisResult d' = (analysisResult d)\<lparr>status := v\<rparr>))
       \<and> (\<forall>n j v r. in_flight n d \<and> requests d ! n = GetResult j \<and> js_get v ''result'' = Inr r \<longrightarrow>
            (\<exists>d'. step (FetchSettled n (Json v)) d = Some d'
               \<and> analysisResult d' =
                   (analysisResult d)\<lparr>result := r, triage := opt_chain r ''triage'',
                     note' := opt_chain r ''note'', citations := opt_chain r ''citations'',
                     trials := opt_chain r ''trials'',
                     treatment_recommendations := opt_chain r ''treatment_recommendations''\<rparr>))"
proof (intro conjI allI impI)
  fix h j
  assume "map_of (intervals d) h = Some j"
  with assms show "jobId (analysisResult d) = Some j" by (rule ticks_poll_current_job)
next
  fix n j v
  assume a: "in_flight n d \<and> requests d ! n = GetStatus j"
  then have "step (FetchSettled n (Json v)) d = Some (useEffect (poll_status j (Json v) (settle n d)))"
    by (simp add: step_def handler_def)
  moreover have "analysisResult (useEffect (poll_status j (Json v) (settle n d)))
                   = (analysisResult d)\<lparr>status := v\<rparr>"
    by (simp add: useEffect_frame poll_status_writes settle_frame)
  ultimately show "\<exists>d'. step (FetchSettled n (Json v)) d = Some d'
                     \<and> analysisResult d' = (analysisResult d)\<lparr>status := v\<rparr>"
    by blast
next
  fix n j v r
  assume a: "in_flight n d \<and> requests d ! n = GetResult j \<and> js_get v ''result'' = Inr r"
  then have "step (FetchSettled n (Json v)) d = Some (useEffect (poll_result (Json v) (settle n d)))"
    by (simp add: step_def handler_def)
  moreover from a have "analysisResult (useEffect (poll_result (Json v) (settle n d)))
                   = setAnalysisResult (analysisResult d) (aggregate r)"
    by (simp add: useEffect_frame poll_result_writes settle_frame)
  ultimately show "\<exists>d'. step (FetchSettled n (Json v)) d = Some d'
      \<and> analysisResult d' =
          (analysisResult d)\<lparr>result := r, triage := opt_chain r ''triage'',
            note' := opt_chain r ''note'', citations := opt_chain r ''citations'',
            trials := opt_chain r ''trials'',
            treatment_recommendations := opt_chain r ''treatment_recommendations''\<rparr>"
    by (simp add: aggregate_writes)
qed

theorem late_response_is_merged_witness:
  "run mounted superseded = Some (the (run mounted superseded))
   \<and> jobId (analysisResult (the (run mounted superseded))) = Some ''B''
   \<and> in_flight 1 (the (run mounted superseded))
   \<and> requests (the (run mounted superseded)) ! 1 = GetStatus ''A''
   \<and> (\<exists>d'. step (FetchSettled 1 (Json status_completed)) (the (run mounted superseded)) = Some d'
         \<and> analysisResult d' =
             (analysisResult (the (run mounted superseded)))\<lparr>status := status_completed\<rparr>)"
proof -
  let ?d = "the (run mounted superseded)"
  have r: "run mounted superseded = Some ?d"
    by (simp add: example_defs run_defs)
  have f: "in_flight 1 ?d \<and> requests ?d ! 1 = GetStatus ''A''"
    by (simp add: example_defs run_defs)
  have b: "jobId (analysisResult ?d) = Some ''B''"
    by (simp add: example_defs run_defs)
  from late_response_is_merged [OF r] f
  have "\<exists>d'. step (FetchSettled 1 (Json status_completed)) ?d = Some d'
          \<and> analysisResult d' = (analysisResult ?d)\<lparr>status := status_completed\<rparr>"
    by blast
  with r f b show ?thesis by blast
qed

text \<open>
  C1 as stated fails. Job \<open>A\<close> is polling, its first status request (request 1) in
  flight, when the job is submitted again and becomes \<open>B\<close>: the store shows \<open>B\<close> with
  nothing else set. The late status response for \<open>A\<close> then sets \<^verbatim>\<open>status\<close>, the result
  response for \<open>A\<close> it leads to sets \<^verbatim>\<open>result\<close> and the derived fields, and the
  interval that response clears is the one of \<open>B\<close>.
\<close>

theorem stale_response_counterexample:
  "map_option requests (run mounted superseded)
     = Some [scan_request, GetStatus ''A'', scan_request, GetStatus ''B'']
   \<and> map_option analysisResult (run mounted superseded)
     = Some (initialAnalysisResult\<lparr>jobId := Some ''B''\<rparr>)
   \<and> map_option intervals (run mounted superseded) = Some [(2, ''B'')]
   \<and> map_option analysisResult
       (run mounted (superseded @ [FetchSettled 1 (Json status_completed)]))
     = Some (initialAnalysisResult\<lparr>jobId := Some ''B'', status := status_completed\<rparr>)
   \<and> map_option analysisResult
       (run mounted (superseded @ [FetchSettled 1 (Json status_completed),
                                   FetchSettled 4 (Json result_body_A)]))
     = Some \<lparr>jobId = Some ''B'', status = status_completed, result = document_A,
             triage = triage_A, note' = note_A, citations = citations_A, trials = trials_A,
             treatment_recommendations = treatment_A\<rparr>
   \<and> map_option intervals
       (run mounted (superseded @ [FetchSettled 1 (Json status_completed),
                                   FetchSettled 4 (Json result_body_A)]))
     = Some []"
  by (simp add: example_defs run_defs)

text \<open>
  C2, at the input where the code departs from it: the first poll of \<open>A\<close> answers
  \<^verbatim>\<open>failed\<close>. The status is stored, the interval stays active, and its next tick issues
  another status request for \<open>A\<close>. After \<^verbatim>\<open>completed\<close> and the result, by contrast,
  no interval is left.
\<close>

theorem failed_status_keeps_polling:
  "map_option analysisResult (run mounted (submit_A @ [FetchSettled 1 (Json status_failed)]))
     = Some (initialAnalysisResult\<lparr>jobId := Some ''A'', status := status_failed\<rparr>)
   \<and> map_option intervals (run mounted (submit_A @ [FetchSettled 1 (Json status_failed)]))
     = Some [(1, ''A'')]
   \<and> map_option requests (run mounted (submit_A @ [FetchSettled 1 (Json status_failed), Tick 1]))
     = Some [scan_request, GetStatus ''A'', GetStatus ''A'']
   \<and> map_option intervals (run mounted job_A_done) = Some []"
  by (simp add: example_defs run_defs)

lemmas snapshot_defs = one_snapshot_def derived_from_def derived_unset_def next_snapshot_def
  delivers_def

lemma one_snapshot_handler:
  assumes "handler e d = Some d'" and "one_snapshot a (analysisResult d)"
  shows "one_snapshot (next_snapshot a e d) (analysisResult d')"
proof (cases e)
  case (SetPatientData p)
  with assms show ?thesis by (auto simp: handler_def writePatient_def next_snapshot_def delivers_def)
next
  case StartSubmit
  with assms show ?thesis
    by (cases "canSubmit (files (patientData d)) (moca (patientData d)) (age (patientData d))")
       (auto simp: handler_def startSubmit_def Let_def fetch_def writeAnalysis_def snapshot_defs
          setAnalysisResult_sel clearedJob_def no_analysis_fields_def split: option.splits)
next
  case UseDemoCase
  with assms show ?thesis
    by (auto simp: handler_def useDemoCase_def fetch_def writeAnalysis_def writePatient_def
          snapshot_defs setAnalysisResult_sel clearedJob_def no_analysis_fields_def
          split: option.splits)
next
  case UseDemoPathology
  with assms show ?thesis
    by (auto simp: handler_def useDemoPathology_def fetch_def writeAnalysis_def writePatient_def
          snapshot_defs setAnalysisResult_sel clearedJob_def no_analysis_fields_def
          split: option.splits)
next
  case ClearAll
  with assms show ?thesis
    by (auto simp: handler_def snapshot_defs initialAnalysisResult_def)
next
  case (Tick h)
  with assms show ?thesis
    by (auto simp: handler_def poll_def fetch_def next_snapshot_def delivers_def split: option.splits)
next
  case (SubmitSettled n out)
  with assms show ?thesis
    by (cases out)
       (auto simp: handler_def startSubmit_settled_def useDemoCase_settled_def
          useDemoPathology_settled_def writeAnalysis_def console_error_def settle_def
          snapshot_defs setAnalysisResult_sel no_analysis_fields_def
          split: if_splits request.splits option.splits)
next
  case (FetchSettled n out)
  show ?thesis
  proof (cases out)
    case Rejected
    with FetchSettled assms show ?thesis
      by (auto simp: handler_def poll_status_def poll_result_def console_error_def settle_def
            next_snapshot_def delivers_def split: if_splits request.splits)
  next
    case (Json v)
    from FetchSettled Json assms(1) have fl: "in_flight n d"
      by (auto simp: handler_def split: if_splits)
    show ?thesis
    proof (cases "requests d ! n")
      case (GetStatus j)
      with FetchSettled Json fl assms show ?thesis
        by (auto simp: handler_def poll_status_writes settle_frame snapshot_defs
              split: option.splits)
    next
      case (GetResult j)
      show ?thesis
      proof (cases "js_get v ''result''")
        case (Inl err)
        with FetchSettled Json fl GetResult assms show ?thesis
          by (auto simp: handler_def poll_result_def console_error_def console_log_def settle_def
                next_snapshot_def delivers_def Let_def)
      next
        case (Inr r)
        with FetchSettled Json fl GetResult assms(1)
        have "analysisResult d' = setAnalysisResult (analysisResult d) (aggregate r)"
          by (auto simp: handler_def poll_result_writes settle_frame)
        moreover from FetchSettled Json fl GetResult Inr
        have "next_snapshot a e d = Some r"
          by (simp add: next_snapshot_def delivers_def)
        ultimately show ?thesis
          by (simp add: one_snapshot_def derived_from_def setAnalysisResult_sel aggregate_def)
      qed
    qed (use FetchSettled Json fl assms in \<open>auto simp: handler_def\<close>)
  qed
qed

lemma one_snapshot_run:
  assumes "run d es = Some d'" and "one_snapshot a (analysisResult d)"
  shows "one_snapshot (snapshot a d es) (analysisResult d')"
  using assms
proof (induction es arbitrary: d a)
  case Nil
  then show ?case by simp
next
  case (Cons e es)
  then obtain d1 where s: "step e d = Some d1" and r: "run d1 es = Some d'"
    by (auto split: option.splits)
  from s obtain h where h: "handler e d = Some h" and d1: "d1 = useEffect h"
    by (auto simp: step_def)
  from one_snapshot_handler [OF h Cons.prems(2)]
  have "one_snapshot (next_snapshot a e d) (analysisResult d1)"
    by (simp add: d1 useEffect_frame)
  from Cons.IH [OF r this] s show ?case by simp
qed

text \<open>
  C3 (as amended). In every state a mounted Dashboard can reach, the five derived fields
  are either all unset, with \<^verbatim>\<open>result\<close> null, or all members of one and the same
  result, the one most recently delivered, and \<^verbatim>\<open>result\<close> is that same result or
  null: never a mix of two results. So whenever \<^verbatim>\<open>result\<close> is not null the derived
  fields are its members; and the aggregation writes \<^verbatim>\<open>result\<close> and the five derived
  fields in one merge.
\<close>

theorem derived_fields_from_one_snapshot:
  assumes "run mounted es = Some d"
  shows "(case snapshot None mounted es of
            None \<Rightarrow> derived_unset (analysisResult d) \<and> result (analysisResult d) = JNull
          | Some r \<Rightarrow>
              derived_from r (analysisResult d)
              \<and> (result (analysisResult d) = r \<or> result (analysisResult d) = JNull))
       \<and> (result (analysisResult d) \<noteq> JNull \<longrightarrow> derived_from_result (analysisResult d))
       \<and> (\<forall>x v r. js_get v ''result'' = Inr r \<longrightarrow>
            analysisResult (poll_result (Json v) x)
              = setAnalysisResult (analysisResult x) (aggregate r))"
proof -
  have "one_snapshot None (analysisResult mounted)"
    by (simp add: one_snapshot_def derived_unset_def mounted_def initialAnalysisResult_def)
  from one_snapshot_run [OF assms this]
  have one: "case snapshot None mounted es of
            None \<Rightarrow> derived_unset (analysisResult d) \<and> result (analysisResult d) = JNull
          | Some r \<Rightarrow>
              derived_from r (analysisResult d)
              \<and> (result (analysisResult d) = r \<or> result (analysisResult d) = JNull)"
    by (simp add: one_snapshot_def)
  have "result (analysisResult mounted) = JNull \<or> derived_from_result (analysisResult mounted)"
    by (simp add: mounted_def initialAnalysisResult_def)
  from derived_run [OF assms this]
  have two: "result (analysisResult d) \<noteq> JNull \<longrightarrow> derived_from_result (analysisResult d)"
    by blast
  from one two show ?thesis by (simp add: poll_result_writes)
qed

theorem derived_fields_from_one_snapshot_witness:
  "run mounted job_A_done = Some (the (run mounted job_A_done))
   \<and> snapshot None mounted job_A_done = Some document_A
   \<and> derived_from document_A (analysisResult (the (run mounted job_A_done)))
   \<and> result (analysisResult (the (run mounted job_A_done))) = document_A
   \<and> run mounted (job_A_done @ [StartSubmit]) = Some (the (run mounted (job_A_done @ [StartSubmit])))
   \<and> snapshot None mounted (job_A_done @ [StartSubmit]) = Some document_A
   \<and> derived_from document_A (analysisResult (the (run mounted (job_A_done @ [StartSubmit]))))
   \<and> result (analysisResult (the (run mounted (job_A_done @ [StartSubmit])))) = JNull"
proof -
  let ?d = "the (run mounted job_A_done)"
  let ?e = "the (run mounted (job_A_done @ [StartSubmit]))"
  have r: "run mounted job_A_done = Some ?d"
    by (simp add: example_defs run_defs)
  have sn: "snapshot None mounted job_A_done = Some document_A"
    by (simp add: example_defs run_defs next_snapshot_def delivers_def)
  have v: "result (analysisResult ?d) = document_A"
    by (simp add: example_defs run_defs)
  have r': "run mounted (job_A_done @ [StartSubmit]) = Some ?e"
    by (simp add: example_defs run_defs)
  have sn': "snapshot None mounted (job_A_done @ [StartSubmit]) = Some document_A"
    by (simp add: example_defs run_defs next_snapshot_def delivers_def)
  have v': "result (analysisResult ?e) = JNull"
    by (simp add: example_defs run_defs)
  from derived_fields_from_one_snapshot [OF r]
  have "case snapshot None mounted job_A_done of
            None \<Rightarrow> derived_unset (analysisResult ?d) \<and> result (analysisResult ?d) = JNull
          | Some r \<Rightarrow>
              derived_from r (analysisResult ?d)
              \<and> (result (analysisResult ?d) = r \<or> result (analysisResult ?d) = JNull)"
    by blast
  then have a: "derived_from document_A (analysisResult ?d)"
    unfolding sn option.case by blast
  from derived_fields_from_one_snapshot [OF r']
  have "case snapshot None mounted (job_A_done @ [StartSubmit]) of
            None \<Rightarrow> derived_unset (analysisResult ?e) \<and> result (analysisResult ?e) = JNull
          | Some r \<Rightarrow>
              derived_from r (analysisResult ?e)
              \<and> (result (analysisResult ?e) = r \<or> result (analysisResult ?e) = JNull)"
    by blast
  then have a': "derived_from document_A (analysisResult ?e)"
    unfolding sn' option.case by blast
  from r sn a v r' sn' a' v' show ?thesis by blast
qed

text \<open>
  C3 as stated fails: after job \<open>A\<close> has delivered its result, a new submission sets
  \<^verbatim>\<open>result\<close> to null and leaves the five derived fields of \<open>A\<close>, which are then
  neither unset nor the members of the stored \<^verbatim>\<open>result\<close>.
\<close>

theorem stale_derived_fields_counterexample:
  "map_option analysisResult (run mounted (job_A_done @ [StartSubmit]))
     = Some \<lparr>jobId = None, status = JNull, result = JNull,
             triage = triage_A, note' = note_A, citations = citations_A, trials = trials_A,
             treatment_recommendations = treatment_A\<rparr>
   \<and> triage_A \<noteq> JNull \<and> triage_A \<noteq> JUndefined
   \<and> \<not> derived_from_result
         \<lparr>jobId = None, status = JNull, result = JNull,
          triage = triage_A, note' = note_A, citations = citations_A, trials = trials_A,
          treatment_recommendations = treatment_A\<rparr>"
  by (simp add: example_defs run_defs derived_from_result_def)

lemma aggregations_useEffect: "aggregations (useEffect d) = aggregations d"
  by (simp add: aggregations_def useEffect_def effect_def env_defs poll_def Let_def
      List.map_filter_def split: option.split)

lemma aggregations_handler:
  "handler e d = Some d' \<Longrightarrow>
   aggregations d' = aggregations d @ (case observes_completed e d of None \<Rightarrow> [] | Some j \<Rightarrow> [j])"
  by (cases e)
     (auto simp: handler_def observes_completed_def aggregations_def code_defs env_defs Let_def
        List.map_filter_def
        split: option.splits if_splits request.splits submit_outcome.splits json_outcome.splits
          sum.splits)

lemma aggregations_step:
  "step e d = Some d' \<Longrightarrow>
   aggregations d' = aggregations d @ (case observes_completed e d of None \<Rightarrow> [] | Some j \<Rightarrow> [j])"
  by (auto simp: step_def aggregations_useEffect dest: aggregations_handler)

text \<open>
  C6 (as amended). Along every run, the result requests issued are exactly the status
  responses that report \<^verbatim>\<open>completed\<close>, in order and for the same jobs: the
  aggregation is invoked once for each such observation and for no other reason. It is
  invoked once for a job exactly when one poll of that job observes \<^verbatim>\<open>completed\<close>.
\<close>

theorem one_aggregation_per_completed_observation:
  "run d es = Some d' \<Longrightarrow> aggregations d' = aggregations d @ observed d es"
proof (induction es arbitrary: d)
  case Nil
  then show ?case by simp
next
  case (Cons e es)
  then obtain d1 where s: "step e d = Some d1" and r: "run d1 es = Some d'"
    by (auto split: option.splits)
  from Cons.IH [OF r] aggregations_step [OF s] s show ?case
    by (simp split: option.split)
qed


theorem one_aggregation_per_completed_observation_witness:
  "run mounted job_A_done = Some (the (run mounted job_A_done))
   \<and> aggregations (the (run mounted job_A_done)) = aggregations mounted @ observed mounted job_A_done
   \<and> aggregations mounted = []
   \<and> observed mounted job_A_done = [''A'']"
proof -
  let ?d = "the (run mounted job_A_done)"
  have r: "run mounted job_A_done = Some ?d"
    by (simp add: example_defs run_defs)
  have a: "aggregations mounted = []"
    by (simp add: aggregations_def mounted_def List.map_filter_def)
  have b: "observed mounted job_A_done = [''A'']"
    by (simp add: example_defs run_defs observes_completed_def)
  from one_aggregation_per_completed_observation [OF r] r a b show ?thesis by blast
qed

text \<open>
  C6 as stated fails: the first poll of \<open>A\<close> observes \<^verbatim>\<open>completed\<close> and starts the
  result request; before that request settles the interval fires, the second poll
  observes \<^verbatim>\<open>completed\<close> too, and a second result request for \<open>A\<close> is issued.
\<close>

theorem aggregation_twice_counterexample:
  "map_option requests
     (run mounted (submit_A @ [FetchSettled 1 (Json status_completed), Tick 1,
                               FetchSettled 3 (Json status_completed)]))
     = Some [scan_request, GetStatus ''A'', GetResult ''A'', GetStatus ''A'', GetResult ''A'']
   \<and> map_option aggregations
     (run mounted (submit_A @ [FetchSettled 1 (Json status_completed), Tick 1,
                               FetchSettled 3 (Json status_completed)]))
     = Some [''A'', ''A'']"
  by (simp add: example_defs run_defs aggregations_def List.map_filter_def)

end
